theory Spec2Isabelle
  imports Complex_Main
begin

section \<open>Embiggen: tile grid, seeds and mask selection\<close>

text \<open>
  A shallow embedding of \<^verbatim>\<open>invokeai/backend/generator/embiggen.py\<close>: the sizing code of
  \<^verbatim>\<open>Embiggen.get_make_image\<close> (overlap in pixels, tile counts, the sanity assertion, the
  sizes to which the gradients of the alpha layers are resized) and
  the two loops of the inner \<^verbatim>\<open>make_image\<close> (the synthesis loop with its seed counter and
  crop boxes, and the compositing loop with its choice of alpha layer).

  Python integers are \<open>int\<close>; \<^verbatim>\<open>//\<close> and \<^verbatim>\<open>%\<close> are \<open>div\<close> and \<open>mod\<close> on \<open>int\<close>
  (both round towards minus infinity), and a division by zero is an error value.
  Images are not modelled: a rendered tile is the record of the synthesis call that
  produced it, and an alpha layer is its name.
\<close>

subsection \<open>Errors\<close>

datatype error =
    AssertionError      \<comment> \<open>the sanity assertion on the tile counts\<close>
  | ZeroDivisionError   \<comment> \<open>\<^verbatim>\<open>//\<close> with divisor 0 in \<^verbatim>\<open>ceildiv\<close>\<close>
  | ValueError          \<comment> \<open>\<^verbatim>\<open>Image.resize\<close> to a width or height below 1\<close>
  | TypeError           \<comment> \<open>\<^verbatim>\<open>len(None)\<close> in the sanity check of the tile store\<close>
  | IndexError          \<comment> \<open>reading the tile store out of range\<close>
  | UnboundLocalError   \<comment> \<open>\<^verbatim>\<open>return outputsuperimage\<close> when it was never assigned\<close>

subsection \<open>Overlap in pixels\<close>

text \<open>Python 3 \<^verbatim>\<open>round\<close>: to the nearest integer, ties to the even one.
  The overlap parameter \<^verbatim>\<open>embiggen[2]\<close>, a float in the source, is taken as the rational
  it stands for, and its product with the tile size is exact here, where the source
  rounds the product of floats; the two agree where the exact product is a float itself,
  as for the ratio 0.25.\<close>

definition py_round :: "rat \<Rightarrow> int" where
  "py_round x =
     (let f = \<lfloor>x\<rfloor>; d = x - of_int f
      in if d < 1 / 2 then f
         else if 1 / 2 < d then f + 1
         else if even f then f else f + 1)"

text \<open>The third entry of the \<^verbatim>\<open>embiggen\<close> argument: 0.25 when absent or negative.\<close>

definition embiggen_overlap :: "rat option \<Rightarrow> rat" where
  "embiggen_overlap e =
     (case e of None \<Rightarrow> 1 / 4 | Some r \<Rightarrow> if r < 0 then 1 / 4 else r)"

text \<open>\<^verbatim>\<open>overlap_size_x, overlap_size_y\<close>: a ratio of the tile size below 1, pixels from 1 on.\<close>

definition overlap_sizes :: "rat \<Rightarrow> int \<Rightarrow> int \<Rightarrow> int \<times> int" where
  "overlap_sizes e2 w h =
     (if e2 < 1 then
        (let r = (if e2 < 0 then 0 else e2)
         in (py_round (r * of_int w), py_round (r * of_int h)))
      else (py_round e2, py_round e2))"

subsection \<open>Tile counts\<close>

definition ceildiv :: "int \<Rightarrow> int \<Rightarrow> error + int" where
  "ceildiv a b = (if b = 0 then Inl ZeroDivisionError else Inr (- 1 * ((- a) div b)))"

text \<open>The count of tiles along one axis: \<^verbatim>\<open>emb_tiles_x\<close> from
  \<^verbatim>\<open>(initsuperwidth, width, overlap_size_x)\<close>, \<^verbatim>\<open>emb_tiles_y\<close> from the heights.\<close>

definition emb_tiles :: "int \<Rightarrow> int \<Rightarrow> int \<Rightarrow> error + int" where
  "emb_tiles initsuper tile overlap =
     (if initsuper - tile > 0 then
        (case ceildiv (initsuper - tile) (tile - overlap) of
           Inl e \<Rightarrow> Inl e
         | Inr q \<Rightarrow> Inr (q + 1))
      else Inr 1)"

text \<open>The variables of \<^verbatim>\<open>get_make_image\<close> that the closure \<^verbatim>\<open>make_image\<close> reads.\<close>

record tiling =
  initsuperwidth :: int
  initsuperheight :: int
  width :: int
  height :: int
  overlap_size_x :: int
  overlap_size_y :: int
  emb_tiles_x :: int
  emb_tiles_y :: int

text \<open>The alpha layers. Their gradients are resized to
  \<^verbatim>\<open>(overlap_size_x, height)\<close>, to \<^verbatim>\<open>(width, overlap_size_y)\<close> and to
  \<^verbatim>\<open>(overlap_size_x, overlap_size_y)\<close>, in this order, and \<^verbatim>\<open>Image.resize\<close> raises
  \<^verbatim>\<open>ValueError\<close> for a width or a height below 1. The layers are known by their names
  only, so what is left of their building is whether it succeeds.\<close>

definition alpha_layers :: "tiling \<Rightarrow> error + tiling" where
  "alpha_layers g =
     (if overlap_size_x g < 1 \<or> height g < 1 then Inl ValueError
      else if width g < 1 \<or> overlap_size_y g < 1 then Inl ValueError
      else Inr g)"

text \<open>\<^verbatim>\<open>get_make_image\<close> from the overlaps in pixels on: the column count is computed
  first, then the row count, then comes the assertion that there is more than one tile,
  then the alpha layers are built.\<close>

definition tile_grid :: "int \<Rightarrow> int \<Rightarrow> int \<Rightarrow> int \<Rightarrow> int \<Rightarrow> int \<Rightarrow> error + tiling" where
  "tile_grid isw ish w h ox oy =
     (case emb_tiles isw w ox of
        Inl e \<Rightarrow> Inl e
      | Inr tx \<Rightarrow>
          (case emb_tiles ish h oy of
             Inl e \<Rightarrow> Inl e
           | Inr ty \<Rightarrow>
               if tx > 1 \<or> ty > 1 then
                 alpha_layers
                   \<lparr>initsuperwidth = isw, initsuperheight = ish,
                    width = w, height = h,
                    overlap_size_x = ox, overlap_size_y = oy,
                    emb_tiles_x = tx, emb_tiles_y = ty\<rparr>
               else Inl AssertionError))"

text \<open>\<^verbatim>\<open>get_make_image\<close> up to the closure it returns, from the size of the (scaled) init
  image, the tile size and the overlap parameter.\<close>

definition get_make_image :: "rat \<Rightarrow> int \<Rightarrow> int \<Rightarrow> int \<Rightarrow> int \<Rightarrow> error + tiling" where
  "get_make_image e2 isw ish w h =
     (case overlap_sizes e2 w h of (ox, oy) \<Rightarrow> tile_grid isw ish w h ox oy)"

subsection \<open>The tile selection\<close>

text \<open>\<^verbatim>\<open>embiggen_tiles\<close> is \<^verbatim>\<open>None\<close>, or a list of tile numbers. Both \<^verbatim>\<open>None\<close> and the
  empty list are false as a condition, and then every tile of the grid is made.\<close>

definition truthy :: "int list option \<Rightarrow> bool" where
  "truthy sel = (case sel of None \<Rightarrow> False | Some s \<Rightarrow> s \<noteq> [])"

text \<open>\<^verbatim>\<open>x in embiggen_tiles\<close>; the source evaluates it only where the selection is true.\<close>

definition is_in :: "int \<Rightarrow> int list option \<Rightarrow> bool" where
  "is_in x sel = (case sel of None \<Rightarrow> False | Some s \<Rightarrow> x \<in> set s)"

text \<open>The tile numbers count from one on the command line, from zero afterwards, sorted.\<close>

definition normalize_tiles :: "int list option \<Rightarrow> int list option" where
  "normalize_tiles sel =
     (case sel of
        None \<Rightarrow> None
      | Some s \<Rightarrow> if s \<noteq> [] then Some (sort (map (\<lambda>n. n - 1) s)) else Some s)"

subsection \<open>The synthesis loop of \<^verbatim>\<open>make_image\<close>\<close>

definition seedintlimit :: int where
  "seedintlimit = 4294967295 - 1"   \<comment> \<open>\<^verbatim>\<open>np.iinfo(np.uint32).max - 1\<close>\<close>

text \<open>The step of the seed counter made before every tile but the first.\<close>

definition seed_step :: "int \<Rightarrow> int" where
  "seed_step seed = (if seed < seedintlimit then seed + 1 else 0)"

text \<open>The upper-left point of a tile; the products are integers, which \<^verbatim>\<open>round\<close> keeps.\<close>

definition tile_left :: "tiling \<Rightarrow> int \<Rightarrow> int" where
  "tile_left g emb_column_i =
     (if emb_column_i + 1 = emb_tiles_x g then initsuperwidth g - width g
      else emb_column_i * (width g - overlap_size_x g))"

definition tile_top :: "tiling \<Rightarrow> int \<Rightarrow> int" where
  "tile_top g emb_row_i =
     (if emb_row_i + 1 = emb_tiles_y g then initsuperheight g - height g
      else emb_row_i * (height g - overlap_size_y g))"

text \<open>The box \<^verbatim>\<open>(left, top, right, bottom)\<close> cut out of the init image for a tile.\<close>

definition crop_box :: "tiling \<Rightarrow> int \<Rightarrow> int \<times> int \<times> int \<times> int" where
  "crop_box g tile =
     (let emb_row_i = tile div emb_tiles_x g;
          emb_column_i = tile mod emb_tiles_x g;
          left = tile_left g emb_column_i;
          top = tile_top g emb_row_i
      in (left, top, left + width g, top + height g))"

text \<open>A rendered tile, as the arguments of the call of the image synthesis that made it.\<close>

record rendered =
  tile_index :: int
  tile_seed :: int
  tile_crop :: "int \<times> int \<times> int \<times> int"

text \<open>The first loop, over the tiles still to visit, with the running seed; the result
  is \<^verbatim>\<open>emb_tile_store\<close>. The seed moves before the test that skips a tile.\<close>

fun tile_loop :: "tiling \<Rightarrow> int list option \<Rightarrow> int \<Rightarrow> int list \<Rightarrow> rendered list" where
  "tile_loop g sel seed [] = []"
| "tile_loop g sel seed (tile # tiles) =
     (let seed' = (if tile \<noteq> 0 then seed_step seed else seed)
      in if truthy sel \<and> \<not> is_in tile sel then tile_loop g sel seed' tiles
         else \<lparr>tile_index = tile, tile_seed = seed', tile_crop = crop_box g tile\<rparr>
              # tile_loop g sel seed' tiles)"

text \<open>\<^verbatim>\<open>range(n)\<close>\<close>

definition range :: "int \<Rightarrow> int list" where
  "range n = map int [0..<nat n]"

definition emb_tile_store :: "tiling \<Rightarrow> int list option \<Rightarrow> int \<Rightarrow> rendered list" where
  "emb_tile_store g sel seed =
     tile_loop g sel seed (range (emb_tiles_x g * emb_tiles_y g))"

subsection \<open>Alpha layers\<close>

text \<open>The alpha layers built by \<^verbatim>\<open>get_make_image\<close>, by name; \<open>NoAlpha\<close> stands for a tile
  on which \<^verbatim>\<open>putalpha\<close> is not called, which stays opaque.\<close>

datatype mask =
    NoAlpha
  | alphaLayerL | alphaLayerT | alphaLayerLTC | alphaLayerTaC | alphaLayerLTaC
  | alphaLayerR | alphaLayerB | alphaLayerTB | alphaLayerLR
  | alphaLayerRBC | alphaLayerLBC | alphaLayerRTC
  | alphaLayerABT | alphaLayerABL | alphaLayerABR | alphaLayerABB
  | alphaLayerAA

text \<open>The layers into which the asymmetric corner \<^verbatim>\<open>agradientAsymC\<close> is pasted.\<close>

fun has_asym_corner :: "mask \<Rightarrow> bool" where
  "has_asym_corner alphaLayerTaC = True"
| "has_asym_corner alphaLayerLTaC = True"
| "has_asym_corner _ = False"

text \<open>The choice of the layer when only some tiles are made again
  (\<^verbatim>\<open>embiggen_tiles\<close> is true), with the look-ahead to the right and down.\<close>

definition rerun_mask :: "tiling \<Rightarrow> int list option \<Rightarrow> int \<Rightarrow> mask" where
  "rerun_mask g sel tile =
     (let emb_row_i = tile div emb_tiles_x g;
          emb_column_i = tile mod emb_tiles_x g;
          right = is_in (tile + 1) sel;
          down = is_in (tile + emb_tiles_x g) sel
      in if emb_row_i = 0 then
           (if emb_column_i = 0 then
              (if right then (if \<not> down then alphaLayerB else NoAlpha)
               else if down then alphaLayerR
               else alphaLayerRBC)
            else if emb_column_i = emb_tiles_x g - 1 then
              (if down then alphaLayerL else alphaLayerLBC)
            else
              (if right then (if down then alphaLayerL else alphaLayerLBC)
               else if down then alphaLayerLR
               else alphaLayerABT))
         else if emb_row_i = emb_tiles_y g - 1 then
           (if emb_column_i = 0 then
              (if right then alphaLayerTaC else alphaLayerRTC)
            else if emb_column_i = emb_tiles_x g - 1 then alphaLayerLTC
            else
              (if right then alphaLayerLTaC else alphaLayerABB))
         else
           (if emb_column_i = 0 then
              (if right then (if down then alphaLayerTaC else alphaLayerTB)
               else if down then alphaLayerRTC
               else alphaLayerABL)
            else if emb_column_i = emb_tiles_x g - 1 then
              (if down then alphaLayerLTC else alphaLayerABR)
            else
              (if right then (if down then alphaLayerLTaC else alphaLayerABR)
               else if down then alphaLayerABB
               else alphaLayerAA)))"

text \<open>The choice of the layer when the whole grid is made.\<close>

definition normal_mask :: "tiling \<Rightarrow> int \<Rightarrow> mask" where
  "normal_mask g tile =
     (let emb_row_i = tile div emb_tiles_x g;
          emb_column_i = tile mod emb_tiles_x g
      in if emb_row_i = 0 \<and> emb_column_i \<ge> 1 then alphaLayerL
         else if emb_row_i \<ge> 1 \<and> emb_column_i = 0 then
           (if emb_column_i + 1 = emb_tiles_x g then alphaLayerT else alphaLayerTaC)
         else
           (if emb_column_i + 1 = emb_tiles_x g then alphaLayerLTC else alphaLayerLTaC))"

text \<open>A tile laid onto the output image: the rendered tile, its alpha layer, and the
  point \<^verbatim>\<open>(left, top)\<close> where it is composited.\<close>

record placement =
  placed :: rendered
  alpha :: mask
  at_left :: int
  at_top :: int

text \<open>The body of the compositing loop after the tile image has been fetched: the
  upper-left tile of a full grid is laid at the origin as it is, every other tile gets
  its point and its alpha layer.\<close>

definition select_mask :: "tiling \<Rightarrow> int list option \<Rightarrow> int \<Rightarrow> mask" where
  "select_mask g sel tile =
     (let emb_row_i = tile div emb_tiles_x g;
          emb_column_i = tile mod emb_tiles_x g
      in if emb_row_i = 0 \<and> emb_column_i = 0 \<and> \<not> truthy sel then NoAlpha
         else if truthy sel then rerun_mask g sel tile
         else normal_mask g tile)"

definition place_at :: "tiling \<Rightarrow> int list option \<Rightarrow> int \<Rightarrow> int \<times> int" where
  "place_at g sel tile =
     (let emb_row_i = tile div emb_tiles_x g;
          emb_column_i = tile mod emb_tiles_x g
      in if emb_row_i = 0 \<and> emb_column_i = 0 \<and> \<not> truthy sel then (0, 0)
         else (tile_left g emb_column_i, tile_top g emb_row_i))"

definition place_tile :: "tiling \<Rightarrow> int list option \<Rightarrow> int \<Rightarrow> rendered \<Rightarrow> placement" where
  "place_tile g sel tile intileimage =
     \<lparr>placed = intileimage, alpha = select_mask g sel tile,
      at_left = fst (place_at g sel tile), at_top = snd (place_at g sel tile)\<rparr>"

text \<open>The compositing loop over the tiles still to visit. With a selection the next
  rendered tile is popped off the front of the store, without one the store is read at
  the tile's index; both raise on a store that is too short.\<close>

fun composite_loop ::
  "tiling \<Rightarrow> int list option \<Rightarrow> rendered list \<Rightarrow> int list \<Rightarrow> error + placement list" where
  "composite_loop g sel store [] = Inr []"
| "composite_loop g sel store (tile # tiles) =
     (if truthy sel then
        (if is_in tile sel then
           (case store of
              [] \<Rightarrow> Inl IndexError
            | intileimage # store' \<Rightarrow>
                (case composite_loop g sel store' tiles of
                   Inl e \<Rightarrow> Inl e
                 | Inr ps \<Rightarrow> Inr (place_tile g sel tile intileimage # ps)))
         else composite_loop g sel store tiles)
      else
        (if tile < int (length store) then
           (case composite_loop g sel store tiles of
              Inl e \<Rightarrow> Inl e
            | Inr ps \<Rightarrow> Inr (place_tile g sel tile (store ! nat tile) # ps))
         else Inl IndexError))"

text \<open>The output image: whether the canvas started from the init image, and the tiles
  composited onto it, in order.\<close>

record superimage =
  seeded :: bool
  layers :: "placement list"

text \<open>The sanity check of the store and what follows it. When the check fails the
  source logs a fixed message and then returns a variable that was never assigned;
  comparing with the length of a selection that is \<^verbatim>\<open>None\<close> raises before that.\<close>

definition assemble :: "tiling \<Rightarrow> int list option \<Rightarrow> rendered list \<Rightarrow> error + superimage" where
  "assemble g sel store =
     (let n = emb_tiles_x g * emb_tiles_y g;
          composite =
            (case composite_loop g sel store (range n) of
               Inl e \<Rightarrow> Inl e
             | Inr ps \<Rightarrow> Inr \<lparr>seeded = truthy sel, layers = ps\<rparr>)
      in if int (length store) = n then composite
         else (case sel of
                 None \<Rightarrow> Inl TypeError
               | Some s \<Rightarrow>
                   if s \<noteq> [] \<and> length store = length s then composite
                   else Inl UnboundLocalError))"

definition make_image :: "tiling \<Rightarrow> int list option \<Rightarrow> int \<Rightarrow> error + superimage" where
  "make_image g sel seed = assemble g sel (emb_tile_store g sel seed)"

text \<open>Sizing and one call of \<^verbatim>\<open>make_image\<close>: the selection is given counting from one.\<close>

definition embiggen ::
  "rat option \<Rightarrow> int list option \<Rightarrow> int \<Rightarrow> int \<Rightarrow> int \<Rightarrow> int \<Rightarrow> int \<Rightarrow> error + superimage" where
  "embiggen e tiles isw ish w h seed =
     (case get_make_image (embiggen_overlap e) isw ish w h of
        Inl err \<Rightarrow> Inl err
      | Inr g \<Rightarrow> make_image g (normalize_tiles tiles) seed)"

subsection \<open>Notions of the specification\<close>

text \<open>The pixels of a box \<^verbatim>\<open>(left, top, right, bottom)\<close>: the left and top edges belong
  to it, the right and bottom edges do not.\<close>

definition box_points :: "int \<times> int \<times> int \<times> int \<Rightarrow> (int \<times> int) set" where
  "box_points b = (case b of (l, t, r, bt) \<Rightarrow> {l..<r} \<times> {t..<bt})"

text \<open>The rule of the specification for a full grid, in its words, from the three tests
  "in the top row", "in the left column", "in the last column": the top-left tile is
  opaque, any other tile of the top row fades on the left, a tile of the left column
  below the top row fades on top with the asymmetric corner unless it is in the last
  column too, where it has the plain top fade, and every other tile fades on top and
  left with a corner, the asymmetric one unless it is in the last column.\<close>

definition full_grid_rule :: "bool \<Rightarrow> bool \<Rightarrow> bool \<Rightarrow> mask" where
  "full_grid_rule top_row left_col last_col =
     (if top_row \<and> left_col then NoAlpha
      else if top_row then alphaLayerL
      else if left_col then (if last_col then alphaLayerT else alphaLayerTaC)
      else (if last_col then alphaLayerLTC else alphaLayerLTaC))"

section \<open>Properties of the tile counts\<close>

text \<open>The quotient computed by \<^verbatim>\<open>ceildiv\<close> with a positive divisor is the least
  multiple of the divisor that reaches the dividend.\<close>

lemma ceil_bounds:
  fixes a d :: int
  assumes "0 < d"
  shows "a \<le> (- ((- a) div d)) * d" and "(- ((- a) div d)) * d < a + d"
proof -
  define q where "q = (- a) div d"
  define m where "m = (- a) mod d"
  have e: "q * d + m = - a" by (simp add: q_def m_def)
  have m0: "0 \<le> m" and m1: "m < d" using assms by (simp_all add: m_def)
  have n: "(- q) * d = - (q * d)" by simp
  show "a \<le> (- ((- a) div d)) * d" unfolding q_def [symmetric] n using e m0 by linarith
  show "(- ((- a) div d)) * d < a + d" unfolding q_def [symmetric] n using e m1 by linarith
qed

lemma ceil_pos:
  fixes a d :: int
  assumes "0 < d" and "0 < a"
  shows "0 < - ((- a) div d)"
proof (rule ccontr)
  assume "\<not> 0 < - ((- a) div d)"
  then have "- ((- a) div d) \<le> 0" by simp
  then have "(- ((- a) div d)) * d \<le> 0" using assms(1) by (simp add: mult_nonpos_nonneg)
  with ceil_bounds(1) [OF assms(1), of a] assms(2) show False by linarith
qed

lemma ceildiv_ceiling:
  "- ((- a) div b) = \<lceil>(of_int a :: rat) / of_int b\<rceil>"
proof -
  have "- ((of_int a :: rat) / of_int b) = of_int (- a) / of_int b" by simp
  then show ?thesis unfolding ceiling_def by (simp only: floor_divide_of_int_eq)
qed

lemma emb_tiles_value:
  assumes "overlap < tile"
  shows "emb_tiles initsuper tile overlap =
           Inr (if tile < initsuper
                then 1 + (- ((- (initsuper - tile)) div (tile - overlap)))
                else 1)"
  using assms by (simp add: emb_tiles_def ceildiv_def)

text \<open>
  Claim C8. For a super-image at least as wide as a tile and an overlap from 0 up to,
  but not including, the tile width, the number of tile columns is
  \<open>1 + ceilDiv (superWidth - tileWidth) (tileWidth - overlapX)\<close> when the super-image is
  wider than a tile and 1 otherwise, where \<open>ceilDiv a b = - floorDiv (- a) b\<close>, which is
  the ceiling of the exact quotient; so there is one column exactly when the widths are
  equal. The rows are counted by the same function from the heights.
\<close>

theorem emb_tiles_formula:
  assumes "tile \<le> initsuper" and "0 \<le> overlap" and "overlap < tile"
  shows "emb_tiles initsuper tile overlap =
           Inr (if tile < initsuper
                then 1 + (- ((- (initsuper - tile)) div (tile - overlap)))
                else 1)
         \<and> - ((- (initsuper - tile)) div (tile - overlap))
             = \<lceil>(of_int (initsuper - tile) :: rat) / of_int (tile - overlap)\<rceil>
         \<and> (emb_tiles initsuper tile overlap = Inr 1 \<longleftrightarrow> initsuper = tile)"
proof -
  let ?a = "initsuper - tile" and ?d = "tile - overlap"
  have d: "0 < ?d" using assms by simp
  have f: "emb_tiles initsuper tile overlap =
           Inr (if tile < initsuper then 1 + (- ((- ?a) div ?d)) else 1)"
    by (rule emb_tiles_value [OF assms(3)])
  have c: "- ((- ?a) div ?d) = \<lceil>(of_int ?a :: rat) / of_int ?d\<rceil>"
    by (rule ceildiv_ceiling)
  have "0 < - ((- ?a) div ?d)" if "tile < initsuper"
    using that d by (intro ceil_pos) simp_all
  then have i: "emb_tiles initsuper tile overlap = Inr 1 \<longleftrightarrow> initsuper = tile"
    using assms(1) by (auto simp: f)
  show ?thesis using f c i by blast
qed

theorem emb_tiles_formula_witness:
  "(512::int) \<le> 1024 \<and> (0::int) \<le> 128 \<and> (128::int) < 512
   \<and> emb_tiles 1024 512 128 = Inr 3 \<and> emb_tiles 1024 512 128 \<noteq> Inr 1"
  using emb_tiles_formula [of 512 1024 128] by simp

section \<open>Choice of the alpha layer\<close>

text \<open>
  Claim C1. When the whole grid is made, the alpha layer of a tile is a function of three
  tests only, "row is 0", "column is 0" and "column is the last one": the top-left tile
  gets none (it stays opaque), any other tile of the top row the left fade
  \<open>alphaLayerL\<close>, a tile of the left column below the top row the top fade with the
  asymmetric corner \<open>alphaLayerTaC\<close>, or the plain top fade \<open>alphaLayerT\<close> when it is in
  the last column too, and every other tile \<open>alphaLayerLTaC\<close>, or \<open>alphaLayerLTC\<close> in the
  last column.
\<close>

theorem full_grid_mask_rule:
  assumes "\<not> truthy sel" and "1 \<le> emb_tiles_x g" and "0 \<le> tile"
  shows "select_mask g sel tile =
           full_grid_rule (tile div emb_tiles_x g = 0) (tile mod emb_tiles_x g = 0)
             (tile mod emb_tiles_x g = emb_tiles_x g - 1)"
proof -
  have r: "0 \<le> tile div emb_tiles_x g" using assms by (simp add: pos_imp_zdiv_nonneg_iff)
  have c: "0 \<le> tile mod emb_tiles_x g" using assms by simp
  show ?thesis
    using assms(1) r c
    by (auto simp: select_mask_def normal_mask_def full_grid_rule_def Let_def)
qed

theorem full_grid_mask_rule_witness:
  "\<not> truthy None \<and> (1::int) \<le> 3 \<and> (0::int) \<le> 5
   \<and> select_mask \<lparr>initsuperwidth = 1280, initsuperheight = 1280, width = 512, height = 512,
        overlap_size_x = 128, overlap_size_y = 128, emb_tiles_x = 3, emb_tiles_y = 3\<rparr> None 5
       = alphaLayerLTC"
  using full_grid_mask_rule [of None "\<lparr>initsuperwidth = 1280, initsuperheight = 1280,
        width = 512, height = 512, overlap_size_x = 128, overlap_size_y = 128,
        emb_tiles_x = 3, emb_tiles_y = 3\<rparr>" 5]
  by (simp add: truthy_def full_grid_rule_def)

text \<open>
  Claim C2, as stated: on a grid of 3 by 3 tiles with the tiles 0, 1, 3 and 4 made again,
  tile 0 would get a layer with the asymmetric corner and not stay opaque. The code does
  the opposite: with the tile to the right and the tile below both in the selection,
  "do nothing on this tile", so no alpha layer is put on it.
\<close>

theorem rerun_top_left_counterexample:
  "select_mask \<lparr>initsuperwidth = 1280, initsuperheight = 1280, width = 512, height = 512,
        overlap_size_x = 128, overlap_size_y = 128, emb_tiles_x = 3, emb_tiles_y = 3\<rparr>
      (normalize_tiles (Some [1, 2, 4, 5])) 0 = NoAlpha
   \<and> \<not> has_asym_corner (select_mask \<lparr>initsuperwidth = 1280, initsuperheight = 1280,
        width = 512, height = 512, overlap_size_x = 128, overlap_size_y = 128,
        emb_tiles_x = 3, emb_tiles_y = 3\<rparr>
      (normalize_tiles (Some [1, 2, 4, 5])) 0)"
  by (simp add: select_mask_def rerun_mask_def normalize_tiles_def truthy_def is_in_def)

text \<open>
  Claim C2, amended: on every grid of 3 by 3 tiles with the selection 0, 1, 3, 4 (given
  as 1, 2, 4, 5 counting from one), tile 0 is composited with no alpha layer: it fades
  on no side and stays fully opaque.
\<close>

theorem rerun_top_left_opaque:
  assumes "emb_tiles_x g = 3" and "emb_tiles_y g = 3"
  shows "normalize_tiles (Some [1, 2, 4, 5]) = Some [0, 1, 3, 4]
       \<and> select_mask g (Some [0, 1, 3, 4]) 0 = NoAlpha"
  using assms
  by (simp add: select_mask_def rerun_mask_def normalize_tiles_def truthy_def is_in_def)

theorem rerun_top_left_opaque_witness:
  "emb_tiles_x \<lparr>initsuperwidth = 1280, initsuperheight = 1280, width = 512, height = 512,
        overlap_size_x = 128, overlap_size_y = 128, emb_tiles_x = 3, emb_tiles_y = 3\<rparr> = 3
   \<and> select_mask \<lparr>initsuperwidth = 1280, initsuperheight = 1280, width = 512, height = 512,
        overlap_size_x = 128, overlap_size_y = 128, emb_tiles_x = 3, emb_tiles_y = 3\<rparr>
      (Some [0, 1, 3, 4]) 0 = NoAlpha"
  using rerun_top_left_opaque [of "\<lparr>initsuperwidth = 1280, initsuperheight = 1280,
        width = 512, height = 512, overlap_size_x = 128, overlap_size_y = 128,
        emb_tiles_x = 3, emb_tiles_y = 3\<rparr>"]
  by simp

section \<open>A worked example\<close>

lemma range_3: "range 3 = [0, 1, 2]"
  by (simp add: range_def upt_rec)

text \<open>
  Claim C4. For an init image of 1024 by 512, tiles of 512 by 512 and the overlap ratio
  0.25: the overlaps are 128 and 128, the grid has 3 columns and 1 row, the three tiles
  are cut at (0,0,512,512), (384,0,896,512) and (512,0,1024,512), and when the whole grid
  is made tile 0 stays opaque and the tiles 1 and 2 get the left fade.
\<close>

theorem example_1024_by_512:
  "overlap_sizes (embiggen_overlap (Some (1 / 4))) 512 512 = (128, 128)
   \<and> get_make_image (embiggen_overlap (Some (1 / 4))) 1024 512 512 512 =
       Inr \<lparr>initsuperwidth = 1024, initsuperheight = 512, width = 512, height = 512,
            overlap_size_x = 128, overlap_size_y = 128, emb_tiles_x = 3, emb_tiles_y = 1\<rparr>
   \<and> embiggen (Some (1 / 4)) None 1024 512 512 512 seed =
       Inr \<lparr>seeded = False, layers =
          [\<lparr>placed = \<lparr>tile_index = 0, tile_seed = seed, tile_crop = (0, 0, 512, 512)\<rparr>,
            alpha = NoAlpha, at_left = 0, at_top = 0\<rparr>,
           \<lparr>placed = \<lparr>tile_index = 1, tile_seed = seed_step seed,
              tile_crop = (384, 0, 896, 512)\<rparr>,
            alpha = alphaLayerL, at_left = 384, at_top = 0\<rparr>,
           \<lparr>placed = \<lparr>tile_index = 2, tile_seed = seed_step (seed_step seed),
              tile_crop = (512, 0, 1024, 512)\<rparr>,
            alpha = alphaLayerL, at_left = 512, at_top = 0\<rparr>]\<rparr>"
proof -
  have o: "overlap_sizes (embiggen_overlap (Some (1 / 4))) 512 512 = (128, 128)"
    by (simp add: overlap_sizes_def embiggen_overlap_def py_round_def)
  have g: "get_make_image (embiggen_overlap (Some (1 / 4))) 1024 512 512 512 =
       Inr \<lparr>initsuperwidth = 1024, initsuperheight = 512, width = 512, height = 512,
            overlap_size_x = 128, overlap_size_y = 128, emb_tiles_x = 3, emb_tiles_y = 1\<rparr>"
    by (simp add: get_make_image_def tile_grid_def alpha_layers_def o emb_tiles_def ceildiv_def)
  show ?thesis
    apply (simp only: o g embiggen_def sum.case normalize_tiles_def option.case)
    apply (simp add: make_image_def emb_tile_store_def assemble_def range_3 truthy_def
        is_in_def crop_box_def tile_left_def tile_top_def place_tile_def place_at_def
        select_mask_def normal_mask_def Let_def)
    done
qed

section \<open>Overlap and tile size\<close>

lemma emb_tiles_zero_divisor:
  "tile < initsuper \<Longrightarrow> overlap = tile \<Longrightarrow>
     emb_tiles initsuper tile overlap = Inl ZeroDivisionError"
  by (simp add: emb_tiles_def ceildiv_def)

lemma emb_tiles_negative_divisor:
  assumes "tile < initsuper" and "tile < overlap"
  shows "\<exists>n. emb_tiles initsuper tile overlap = Inr n \<and> n \<le> 1"
proof -
  have "0 \<le> (- (initsuper - tile)) div (tile - overlap)"
    using assms by (simp add: neg_imp_zdiv_nonneg_iff)
  then show ?thesis using assms by (simp add: emb_tiles_def ceildiv_def)
qed

lemma emb_tiles_error: "emb_tiles a b c = Inl e \<Longrightarrow> e = ZeroDivisionError"
  by (auto simp: emb_tiles_def ceildiv_def split: if_splits)

text \<open>
  Claim C5, as stated: an overlap that is at least the tile size, in a dimension where
  the init image is larger than a tile, would stop the sizing with a configuration error,
  so that the divisor of the tile count is always positive. The code never compares the
  overlap with the tile size. With tiles of 512 by 1024 on an init image of 1024 by 2048,
  an overlap of 600 pixels passes the sizing with the divisor \<open>512 - 600\<close> and a column
  count of \<open>- 4\<close>; an overlap of 512 pixels stops it with a division by zero, which is not
  the sanity assertion.
\<close>

theorem overlap_not_validated_counterexample:
  "get_make_image (embiggen_overlap (Some 600)) 1024 2048 512 1024 =
     Inr \<lparr>initsuperwidth = 1024, initsuperheight = 2048, width = 512, height = 1024,
          overlap_size_x = 600, overlap_size_y = 600, emb_tiles_x = - 4, emb_tiles_y = 4\<rparr>
   \<and> get_make_image (embiggen_overlap (Some 512)) 1024 2048 512 1024 = Inl ZeroDivisionError"
  by (simp add: get_make_image_def tile_grid_def alpha_layers_def overlap_sizes_def
      embiggen_overlap_def py_round_def emb_tiles_def ceildiv_def)

text \<open>
  Claim C5, amended: the overlap is not checked against the tile size. Where the overlap
  equals the tile size in a dimension in which the init image is larger than a tile, the
  sizing stops with a division by zero (before any tile is made). Where the overlap is
  larger than the tile size in such a dimension, the divisor is negative, the count of
  that dimension is at most 1, and the sizing fails, by the sanity assertion, exactly when
  the count of the other dimension is at most 1 too; otherwise it succeeds, and
  \<^verbatim>\<open>get_make_image\<close> returns unless an overlap or a tile size is below 1 pixel, for
  which the alpha layers cannot be built.
\<close>

theorem overlap_not_validated:
  assumes "overlap_sizes e2 w h = (ox, oy)"
  shows "((w < isw \<and> ox = w) \<or> (h < ish \<and> oy = h) \<longrightarrow>
            get_make_image e2 isw ish w h = Inl ZeroDivisionError)
       \<and> (w < isw \<and> w < ox \<and> \<not> (h < ish \<and> oy = h) \<longrightarrow>
            (\<exists>tx ty. emb_tiles isw w ox = Inr tx \<and> emb_tiles ish h oy = Inr ty \<and> tx \<le> 1 \<and>
               get_make_image e2 isw ish w h =
                 (if 1 < ty then
                    (if ox < 1 \<or> h < 1 \<or> w < 1 \<or> oy < 1 then Inl ValueError
                     else
                       Inr \<lparr>initsuperwidth = isw, initsuperheight = ish, width = w,
                            height = h, overlap_size_x = ox, overlap_size_y = oy,
                            emb_tiles_x = tx, emb_tiles_y = ty\<rparr>)
                  else Inl AssertionError)))
       \<and> (h < ish \<and> h < oy \<and> \<not> (w < isw \<and> ox = w) \<longrightarrow>
            (\<exists>tx ty. emb_tiles isw w ox = Inr tx \<and> emb_tiles ish h oy = Inr ty \<and> ty \<le> 1 \<and>
               get_make_image e2 isw ish w h =
                 (if 1 < tx then
                    (if ox < 1 \<or> h < 1 \<or> w < 1 \<or> oy < 1 then Inl ValueError
                     else
                       Inr \<lparr>initsuperwidth = isw, initsuperheight = ish, width = w,
                            height = h, overlap_size_x = ox, overlap_size_y = oy,
                            emb_tiles_x = tx, emb_tiles_y = ty\<rparr>)
                  else Inl AssertionError)))"
proof (intro conjI impI)
  assume "(w < isw \<and> ox = w) \<or> (h < ish \<and> oy = h)"
  then show "get_make_image e2 isw ish w h = Inl ZeroDivisionError"
  proof
    assume "w < isw \<and> ox = w"
    then show ?thesis
      by (simp add: get_make_image_def tile_grid_def assms emb_tiles_zero_divisor)
  next
    assume y: "h < ish \<and> oy = h"
    show ?thesis
    proof (cases "emb_tiles isw w ox")
      case (Inl e)
      then show ?thesis using emb_tiles_error [OF Inl]
        by (simp add: get_make_image_def tile_grid_def assms)
    next
      case (Inr tx)
      then show ?thesis using y
        by (simp add: get_make_image_def tile_grid_def assms emb_tiles_zero_divisor)
    qed
  qed
next
  assume a: "w < isw \<and> w < ox \<and> \<not> (h < ish \<and> oy = h)"
  then obtain tx where tx: "emb_tiles isw w ox = Inr tx" "tx \<le> 1"
    using emb_tiles_negative_divisor [of w isw ox] by blast
  from a have "\<exists>ty. emb_tiles ish h oy = Inr ty"
    by (auto simp: emb_tiles_def ceildiv_def)
  then obtain ty where ty: "emb_tiles ish h oy = Inr ty" by blast
  have "get_make_image e2 isw ish w h =
                 (if 1 < ty then
                    (if ox < 1 \<or> h < 1 \<or> w < 1 \<or> oy < 1 then Inl ValueError
                     else
                       Inr \<lparr>initsuperwidth = isw, initsuperheight = ish, width = w,
                            height = h, overlap_size_x = ox, overlap_size_y = oy,
                            emb_tiles_x = tx, emb_tiles_y = ty\<rparr>)
                  else Inl AssertionError)"
    using tx ty by (auto simp: get_make_image_def tile_grid_def alpha_layers_def assms)
  with tx ty
  show "\<exists>tx ty. emb_tiles isw w ox = Inr tx \<and> emb_tiles ish h oy = Inr ty \<and> tx \<le> 1 \<and>
               get_make_image e2 isw ish w h =
                 (if 1 < ty then
                    (if ox < 1 \<or> h < 1 \<or> w < 1 \<or> oy < 1 then Inl ValueError
                     else
                       Inr \<lparr>initsuperwidth = isw, initsuperheight = ish, width = w,
                            height = h, overlap_size_x = ox, overlap_size_y = oy,
                            emb_tiles_x = tx, emb_tiles_y = ty\<rparr>)
                  else Inl AssertionError)"
    by blast
next
  assume a: "h < ish \<and> h < oy \<and> \<not> (w < isw \<and> ox = w)"
  then obtain ty where ty: "emb_tiles ish h oy = Inr ty" "ty \<le> 1"
    using emb_tiles_negative_divisor [of h ish oy] by blast
  from a have "\<exists>tx. emb_tiles isw w ox = Inr tx"
    by (auto simp: emb_tiles_def ceildiv_def)
  then obtain tx where tx: "emb_tiles isw w ox = Inr tx" by blast
  have "get_make_image e2 isw ish w h =
                 (if 1 < tx then
                    (if ox < 1 \<or> h < 1 \<or> w < 1 \<or> oy < 1 then Inl ValueError
                     else
                       Inr \<lparr>initsuperwidth = isw, initsuperheight = ish, width = w,
                            height = h, overlap_size_x = ox, overlap_size_y = oy,
                            emb_tiles_x = tx, emb_tiles_y = ty\<rparr>)
                  else Inl AssertionError)"
    using tx ty by (auto simp: get_make_image_def tile_grid_def alpha_layers_def assms)
  with tx ty
  show "\<exists>tx ty. emb_tiles isw w ox = Inr tx \<and> emb_tiles ish h oy = Inr ty \<and> ty \<le> 1 \<and>
               get_make_image e2 isw ish w h =
                 (if 1 < tx then
                    (if ox < 1 \<or> h < 1 \<or> w < 1 \<or> oy < 1 then Inl ValueError
                     else
                       Inr \<lparr>initsuperwidth = isw, initsuperheight = ish, width = w,
                            height = h, overlap_size_x = ox, overlap_size_y = oy,
                            emb_tiles_x = tx, emb_tiles_y = ty\<rparr>)
                  else Inl AssertionError)"
    by blast
qed

theorem overlap_not_validated_witness:
  "overlap_sizes 700 512 1024 = (700, 700)
   \<and> get_make_image 700 1024 1024 512 1024 = Inl AssertionError
   \<and> get_make_image 1024 1024 2048 512 1024 = Inl ZeroDivisionError"
proof -
  have o: "overlap_sizes 700 512 1024 = (700, 700)"
    by (simp add: overlap_sizes_def py_round_def)
  have p: "overlap_sizes 1024 512 1024 = (1024, 1024)"
    by (simp add: overlap_sizes_def py_round_def)
  have t: "emb_tiles 1024 1024 700 = Inr 1" by (simp add: emb_tiles_def)
  show ?thesis
    using overlap_not_validated [OF o, of 1024 1024] overlap_not_validated [OF p, of 1024 2048] o t
    by auto
qed

section \<open>The synthesis loop\<close>

text \<open>The store after the loop, in closed form: one entry for every tile of the range
  that is not skipped, with the seed stepped once for every tile before it and itself,
  the first tile excepted.\<close>

lemma tile_loop_upt:
  "1 \<le> k \<Longrightarrow> tile_loop g sel s (map int [k..<m]) =
     map (\<lambda>t. \<lparr>tile_index = t, tile_seed = (seed_step ^^ (nat t + 1 - k)) s,
               tile_crop = crop_box g t\<rparr>)
       (filter (\<lambda>t. \<not> truthy sel \<or> is_in t sel) (map int [k..<m]))"
proof (induction "m - k" arbitrary: k s)
  case 0
  then show ?case by simp
next
  case (Suc d)
  then have km: "k < m" by simp
  have d: "d = m - Suc k" using Suc.hyps(2) by simp
  have ih: "tile_loop g sel (seed_step s) (map int [Suc k..<m]) =
     map (\<lambda>t. \<lparr>tile_index = t, tile_seed = (seed_step ^^ (nat t + 1 - Suc k)) (seed_step s),
               tile_crop = crop_box g t\<rparr>)
       (filter (\<lambda>t. \<not> truthy sel \<or> is_in t sel) (map int [Suc k..<m]))"
    by (rule Suc.hyps(1) [OF d]) simp
  have sh: "(seed_step ^^ (nat t + 1 - Suc k)) (seed_step s) = (seed_step ^^ (nat t + 1 - k)) s"
    if "t \<in> set (map int [Suc k..<m])" for t
  proof -
    from that have "Suc k \<le> nat t" by auto
    then have "nat t + 1 - k = Suc (nat t + 1 - Suc k)" by simp
    then show ?thesis by (simp add: funpow_swap1)
  qed
  have m: "map (\<lambda>t. \<lparr>tile_index = t, tile_seed = (seed_step ^^ (nat t + 1 - Suc k)) (seed_step s),
               tile_crop = crop_box g t\<rparr>)
       (filter (\<lambda>t. \<not> truthy sel \<or> is_in t sel) (map int [Suc k..<m]))
     = map (\<lambda>t. \<lparr>tile_index = t, tile_seed = (seed_step ^^ (nat t + 1 - k)) s,
               tile_crop = crop_box g t\<rparr>)
       (filter (\<lambda>t. \<not> truthy sel \<or> is_in t sel) (map int [Suc k..<m]))"
  proof (rule map_cong [OF refl])
    fix t
    assume "t \<in> set (filter (\<lambda>t. \<not> truthy sel \<or> is_in t sel) (map int [Suc k..<m]))"
    then have "t \<in> set (map int [Suc k..<m])" by simp
    from sh [OF this]
    show "\<lparr>tile_index = t, tile_seed = (seed_step ^^ (nat t + 1 - Suc k)) (seed_step s),
               tile_crop = crop_box g t\<rparr>
        = \<lparr>tile_index = t, tile_seed = (seed_step ^^ (nat t + 1 - k)) s,
               tile_crop = crop_box g t\<rparr>"
      by (simp only:)
  qed
  have k0: "int k \<noteq> 0" using Suc.prems by simp
  have lst: "map int [k..<m] = int k # map int [Suc k..<m]"
    by (simp add: upt_conv_Cons [OF km])
  have step: "tile_loop g sel s (int k # map int [Suc k..<m]) =
      (if truthy sel \<and> \<not> is_in (int k) sel
       then tile_loop g sel (seed_step s) (map int [Suc k..<m])
       else \<lparr>tile_index = int k, tile_seed = seed_step s, tile_crop = crop_box g (int k)\<rparr>
            # tile_loop g sel (seed_step s) (map int [Suc k..<m]))"
    using k0 by (simp add: Let_def)
  show ?case
    unfolding lst step ih m by simp
qed

lemma tile_loop_range:
  "tile_loop g sel s (range n) =
     map (\<lambda>t. \<lparr>tile_index = t, tile_seed = (seed_step ^^ nat t) s, tile_crop = crop_box g t\<rparr>)
       (filter (\<lambda>t. \<not> truthy sel \<or> is_in t sel) (range n))"
proof (cases "0 < nat n")
  case False
  then show ?thesis by (simp add: range_def)
next
  case True
  have r: "range n = 0 # map int [1..<nat n]"
    using True by (simp add: range_def upt_conv_Cons)
  have sh: "(seed_step ^^ (nat t + 1 - 1)) s = (seed_step ^^ nat t) s" for t by simp
  show ?thesis
    unfolding r by (simp add: tile_loop_upt Let_def)
qed

lemma store_full_grid:
  assumes "\<not> truthy sel"
  shows "emb_tile_store g sel seed =
     map (\<lambda>t. \<lparr>tile_index = t, tile_seed = (seed_step ^^ nat t) seed, tile_crop = crop_box g t\<rparr>)
       (range (emb_tiles_x g * emb_tiles_y g))"
  using assms by (simp add: emb_tile_store_def tile_loop_range)

lemma range_nth: "i < length (range n) \<Longrightarrow> range n ! i = int i"
  by (simp add: range_def)

lemma set_range: "set (range n) = {0..<n}"
proof (intro set_eqI iffI)
  fix x assume "x \<in> set (range n)"
  then show "x \<in> {0..<n}" by (auto simp: range_def)
next
  fix x assume "x \<in> {0..<n}"
  then have "nat x \<in> set [0..<nat n]" and "x = int (nat x)" by auto
  then show "x \<in> set (range n)" unfolding range_def set_map by (rule image_eqI [rotated])
qed

lemma sorted_range: "sorted_wrt (<) (range n)"
  by (simp add: range_def sorted_wrt_map)

lemma store_closed_form:
  "emb_tile_store g sel seed =
     map (\<lambda>t. \<lparr>tile_index = t, tile_seed = (seed_step ^^ nat t) seed, tile_crop = crop_box g t\<rparr>)
       (filter (\<lambda>t. \<not> truthy sel \<or> is_in t sel) (range (emb_tiles_x g * emb_tiles_y g)))"
  by (simp add: emb_tile_store_def tile_loop_range)

section \<open>Seeds\<close>

text \<open>
  Claim C9, as stated: for consecutive calls of the synthesis, the seed of the later tile
  is the seed of the earlier one plus one, going back to zero exactly at the largest
  unsigned 32-bit number, \<open>2 ^ 32 - 1\<close>. The limit of the code is one less: from the
  seed \<open>2 ^ 32 - 2\<close> the next seed is 0, not \<open>2 ^ 32 - 1\<close>. And with a selection the
  counter also steps for the tiles that are skipped: with the tiles 0 and 2 of three
  selected, the two calls get the seeds 7 and 9.
\<close>

theorem seed_wrap_counterexample:
  "map tile_seed
     (emb_tile_store \<lparr>initsuperwidth = 896, initsuperheight = 512, width = 512, height = 512,
        overlap_size_x = 128, overlap_size_y = 128, emb_tiles_x = 2, emb_tiles_y = 1\<rparr>
        None 4294967294) = [4294967294, 0]
   \<and> (4294967294 :: int) < 2 ^ 32 - 1
   \<and> map tile_seed
     (emb_tile_store \<lparr>initsuperwidth = 1024, initsuperheight = 512, width = 512, height = 512,
        overlap_size_x = 128, overlap_size_y = 128, emb_tiles_x = 3, emb_tiles_y = 1\<rparr>
        (Some [0, 2]) 7) = [7, 9]"
  by (simp add: emb_tile_store_def range_def upt_rec seed_step_def seedintlimit_def truthy_def
      is_in_def)

text \<open>
  Claim C9, amended: consecutive calls of the synthesis are for tiles \<open>i < j\<close>, and the
  seed of the later one is the seed of the earlier one stepped \<open>j - i\<close> times, where one
  step takes a seed \<open>s\<close> to \<open>s + 1\<close> when \<open>s < 2 ^ 32 - 2\<close> and to 0 otherwise; when the
  whole grid is made, \<open>j = i + 1\<close> and the later seed is one step from the earlier one.
\<close>

theorem seed_successor:
  assumes "Suc k < length (emb_tile_store g sel seed)"
  shows "tile_index (emb_tile_store g sel seed ! k)
           < tile_index (emb_tile_store g sel seed ! Suc k)
       \<and> tile_seed (emb_tile_store g sel seed ! Suc k) =
           (seed_step ^^ nat (tile_index (emb_tile_store g sel seed ! Suc k)
                              - tile_index (emb_tile_store g sel seed ! k)))
             (tile_seed (emb_tile_store g sel seed ! k))
       \<and> seed_step (tile_seed (emb_tile_store g sel seed ! k)) =
           (if tile_seed (emb_tile_store g sel seed ! k) < 2 ^ 32 - 2
            then tile_seed (emb_tile_store g sel seed ! k) + 1 else 0)
       \<and> (\<not> truthy sel \<longrightarrow>
            tile_index (emb_tile_store g sel seed ! Suc k)
              = tile_index (emb_tile_store g sel seed ! k) + 1
            \<and> tile_seed (emb_tile_store g sel seed ! Suc k)
              = seed_step (tile_seed (emb_tile_store g sel seed ! k)))"
proof -
  let ?n = "emb_tiles_x g * emb_tiles_y g"
  let ?L = "filter (\<lambda>t. \<not> truthy sel \<or> is_in t sel) (range ?n)"
  let ?S = "emb_tile_store g sel seed"
  have len: "Suc k < length ?L" "k < length ?L"
    using assms by (simp_all add: store_closed_form)
  have a: "?S ! k = \<lparr>tile_index = ?L ! k, tile_seed = (seed_step ^^ nat (?L ! k)) seed,
      tile_crop = crop_box g (?L ! k)\<rparr>"
    unfolding store_closed_form using len(2) by (rule nth_map)
  have b: "?S ! Suc k = \<lparr>tile_index = ?L ! Suc k,
      tile_seed = (seed_step ^^ nat (?L ! Suc k)) seed, tile_crop = crop_box g (?L ! Suc k)\<rparr>"
    unfolding store_closed_form using len(1) by (rule nth_map)
  have "sorted_wrt (<) ?L" by (rule sorted_wrt_filter [OF sorted_range])
  then have lt: "?L ! k < ?L ! Suc k"
    using len(1) by (simp add: sorted_wrt_iff_nth_less)
  have "?L ! k \<in> set ?L" using len(2) by (rule nth_mem)
  then have nn: "0 \<le> ?L ! k" by (simp add: set_range)
  have "nat (?L ! Suc k) = nat (?L ! Suc k - ?L ! k) + nat (?L ! k)"
    using lt nn by simp
  then have fp: "(seed_step ^^ nat (?L ! Suc k)) seed =
      (seed_step ^^ nat (?L ! Suc k - ?L ! k)) ((seed_step ^^ nat (?L ! k)) seed)"
    by (simp only: funpow_add comp_apply)
  have c1: "tile_index (?S ! k) < tile_index (?S ! Suc k)"
    unfolding a b using lt by simp
  have c2: "tile_seed (?S ! Suc k) =
      (seed_step ^^ nat (tile_index (?S ! Suc k) - tile_index (?S ! k))) (tile_seed (?S ! k))"
    unfolding a b using fp by simp
  have c3: "seed_step (tile_seed (?S ! k)) =
      (if tile_seed (?S ! k) < 2 ^ 32 - 2 then tile_seed (?S ! k) + 1 else 0)"
    by (simp add: seed_step_def seedintlimit_def)
  have c4: "tile_index (?S ! Suc k) = tile_index (?S ! k) + 1
      \<and> tile_seed (?S ! Suc k) = seed_step (tile_seed (?S ! k))" if "\<not> truthy sel"
  proof -
    have L: "?L = range ?n" using that by simp
    have i: "?L ! Suc k = ?L ! k + 1"
      using len unfolding L by (simp add: range_nth)
    then have "nat (?L ! Suc k - ?L ! k) = Suc 0" by simp
    with c2 i show ?thesis unfolding a b by simp
  qed
  show ?thesis using c1 c2 c3 c4 by blast
qed

theorem seed_successor_witness:
  "tile_seed (emb_tile_store \<lparr>initsuperwidth = 1024, initsuperheight = 512, width = 512,
        height = 512, overlap_size_x = 128, overlap_size_y = 128, emb_tiles_x = 3,
        emb_tiles_y = 1\<rparr> (Some [0, 2]) 7 ! Suc 0) = (seed_step ^^ nat (2 - 0)) 7
   \<and> (seed_step ^^ nat (2 - 0)) 7 = 9"
proof -
  let ?g = "\<lparr>initsuperwidth = 1024, initsuperheight = 512, width = 512,
        height = 512, overlap_size_x = 128, overlap_size_y = 128, emb_tiles_x = 3,
        emb_tiles_y = 1\<rparr>"
  have s: "emb_tile_store ?g (Some [0, 2]) 7 =
      [\<lparr>tile_index = 0, tile_seed = 7, tile_crop = crop_box ?g 0\<rparr>,
       \<lparr>tile_index = 2, tile_seed = 9, tile_crop = crop_box ?g 2\<rparr>]"
    by (simp add: emb_tile_store_def range_def upt_rec truthy_def is_in_def seed_step_def
        seedintlimit_def)
  have l: "Suc 0 < length (emb_tile_store ?g (Some [0, 2]) 7)"
    unfolding s by simp
  have "tile_seed (emb_tile_store ?g (Some [0, 2]) 7 ! Suc 0) =
      (seed_step ^^ nat (tile_index (emb_tile_store ?g (Some [0, 2]) 7 ! Suc 0)
                         - tile_index (emb_tile_store ?g (Some [0, 2]) 7 ! 0)))
        (tile_seed (emb_tile_store ?g (Some [0, 2]) 7 ! 0))"
    using seed_successor [OF l] by blast
  then have e: "tile_seed (emb_tile_store ?g (Some [0, 2]) 7 ! Suc 0)
      = (seed_step ^^ nat (2 - 0)) 7"
    unfolding s by simp
  then have "(seed_step ^^ nat (2 - 0)) 7 = 9" unfolding s by simp
  with e show ?thesis by blast
qed

text \<open>
  Claim C10. When only a selection of tiles is made, the seed counter still steps once
  for every tile of the grid, skipped or not: a selected tile \<open>i\<close> of the grid is
  synthesised, with the initial seed stepped \<open>i\<close> times, whatever else the selection
  holds, so two runs with different selections that both contain \<open>i\<close> give tile \<open>i\<close>
  the same seed.
\<close>

theorem rerun_seed_of_tile:
  assumes "truthy sel" and "is_in i sel" and "truthy sel'" and "is_in i sel'"
    and "0 \<le> i" and "i < emb_tiles_x g * emb_tiles_y g"
  shows "(\<exists>r \<in> set (emb_tile_store g sel seed). tile_index r = i)
       \<and> (\<forall>r \<in> set (emb_tile_store g sel seed). \<forall>r' \<in> set (emb_tile_store g sel' seed).
            tile_index r = i \<and> tile_index r' = i \<longrightarrow>
              tile_seed r = (seed_step ^^ nat i) seed \<and> tile_seed r' = tile_seed r)"
proof -
  have m: "tile_seed r = (seed_step ^^ nat (tile_index r)) seed"
    if "r \<in> set (emb_tile_store g s seed)" for r s
    using that by (auto simp: emb_tile_store_def tile_loop_range)
  have "i \<in> set (range (emb_tiles_x g * emb_tiles_y g))"
    using assms(5,6) by (simp add: set_range)
  then have "\<lparr>tile_index = i, tile_seed = (seed_step ^^ nat i) seed, tile_crop = crop_box g i\<rparr>
      \<in> set (emb_tile_store g sel seed)"
    using assms(2) by (simp add: emb_tile_store_def tile_loop_range image_iff)
  then have e: "\<exists>r \<in> set (emb_tile_store g sel seed). tile_index r = i"
    by (rule bexI [rotated]) simp
  show ?thesis using e m by auto
qed

theorem rerun_seed_of_tile_witness:
  "map (\<lambda>r. (tile_index r, tile_seed r))
     (emb_tile_store \<lparr>initsuperwidth = 1280, initsuperheight = 1280, width = 512, height = 512,
        overlap_size_x = 128, overlap_size_y = 128, emb_tiles_x = 3, emb_tiles_y = 3\<rparr>
        (Some [0, 1, 3, 4]) 7) = [(0, 7), (1, 8), (3, 10), (4, 11)]
   \<and> map (\<lambda>r. (tile_index r, tile_seed r))
     (emb_tile_store \<lparr>initsuperwidth = 1280, initsuperheight = 1280, width = 512, height = 512,
        overlap_size_x = 128, overlap_size_y = 128, emb_tiles_x = 3, emb_tiles_y = 3\<rparr>
        (Some [4, 8]) 7) = [(4, 11), (8, 15)]
   \<and> (seed_step ^^ nat 4) 7 = 11"
proof -
  let ?g = "\<lparr>initsuperwidth = 1280, initsuperheight = 1280, width = 512, height = 512,
        overlap_size_x = 128, overlap_size_y = 128, emb_tiles_x = 3, emb_tiles_y = 3\<rparr>"
  have r: "range 9 = [0, 1, 2, 3, 4, 5, 6, 7, 8]" by (simp add: range_def upt_rec)
  have s: "map (\<lambda>r. (tile_index r, tile_seed r)) (emb_tile_store ?g (Some [0, 1, 3, 4]) 7)
      = [(0, 7), (1, 8), (3, 10), (4, 11)]"
    by (simp add: emb_tile_store_def r truthy_def is_in_def seed_step_def seedintlimit_def)
  have s': "map (\<lambda>r. (tile_index r, tile_seed r)) (emb_tile_store ?g (Some [4, 8]) 7)
      = [(4, 11), (8, 15)]"
    by (simp add: emb_tile_store_def r truthy_def is_in_def seed_step_def seedintlimit_def)
  have h: "truthy (Some [0, 1, 3, 4::int])" "is_in 4 (Some [0, 1, 3, 4])"
      "truthy (Some [4, 8::int])" "is_in 4 (Some [4, 8])" "(0::int) \<le> 4"
      "4 < emb_tiles_x ?g * emb_tiles_y ?g"
    by (simp_all add: truthy_def is_in_def)
  have w: "\<lparr>tile_index = 4, tile_seed = 11, tile_crop = crop_box ?g 4\<rparr>
      \<in> set (emb_tile_store ?g (Some [0, 1, 3, 4]) 7)"
    by (simp add: emb_tile_store_def r truthy_def is_in_def seed_step_def seedintlimit_def)
  have w': "\<lparr>tile_index = 4, tile_seed = 11, tile_crop = crop_box ?g 4\<rparr>
      \<in> set (emb_tile_store ?g (Some [4, 8]) 7)"
    by (simp add: emb_tile_store_def r truthy_def is_in_def seed_step_def seedintlimit_def)
  from rerun_seed_of_tile [OF h, of 7] w w'
  have "tile_seed \<lparr>tile_index = 4, tile_seed = 11, tile_crop = crop_box ?g 4\<rparr>
      = (seed_step ^^ nat 4) 7"
    by (metis rendered.select_convs(1))
  then have "(seed_step ^^ nat 4) 7 = 11" by simp
  with s s' show ?thesis by blast
qed

section \<open>The compositing loop\<close>

text \<open>With a selection, the compositing loop finds in the store of the synthesis loop
  exactly the tiles it pops, and lays them down in the order of the store.\<close>

lemma composite_loop_rerun:
  assumes "truthy sel"
  shows "composite_loop g sel (tile_loop g sel seed ts) ts =
     Inr (map (\<lambda>r. place_tile g sel (tile_index r) r) (tile_loop g sel seed ts))"
  using assms by (induction ts arbitrary: seed) (simp_all add: Let_def)

lemma store_tile_indices:
  "map tile_index (emb_tile_store g sel seed) =
     filter (\<lambda>t. \<not> truthy sel \<or> is_in t sel) (range (emb_tiles_x g * emb_tiles_y g))"
  by (simp add: emb_tile_store_def tile_loop_range comp_def)

text \<open>
  Claim C6, as stated: a selection with a tile number outside the grid would stop the
  run with an error. Nothing in the code compares a tile number with the size of the
  grid. On the grid of 2 by 1 tiles of an init image of 896 by 512, the selection 1, 2, 3
  (0, 1, 2 counting from zero) runs to the end: the tiles 0 and 1 are made and
  composited, and the number 2, which is no tile of the grid, is taken for the tile below
  tile 0, which therefore gets no alpha layer.
\<close>

theorem out_of_range_tile_counterexample:
  "get_make_image (embiggen_overlap (Some (1 / 4))) 896 512 512 512 =
     Inr \<lparr>initsuperwidth = 896, initsuperheight = 512, width = 512, height = 512,
          overlap_size_x = 128, overlap_size_y = 128, emb_tiles_x = 2, emb_tiles_y = 1\<rparr>
   \<and> normalize_tiles (Some [1, 2, 3]) = Some [0, 1, 2]
   \<and> embiggen (Some (1 / 4)) (Some [1, 2, 3]) 896 512 512 512 7 =
       Inr \<lparr>seeded = True, layers =
          [\<lparr>placed = \<lparr>tile_index = 0, tile_seed = 7, tile_crop = (0, 0, 512, 512)\<rparr>,
            alpha = NoAlpha, at_left = 0, at_top = 0\<rparr>,
           \<lparr>placed = \<lparr>tile_index = 1, tile_seed = 8, tile_crop = (384, 0, 896, 512)\<rparr>,
            alpha = alphaLayerLBC, at_left = 384, at_top = 0\<rparr>]\<rparr>"
proof -
  have o: "overlap_sizes (embiggen_overlap (Some (1 / 4))) 512 512 = (128, 128)"
    by (simp add: overlap_sizes_def embiggen_overlap_def py_round_def)
  have g: "get_make_image (embiggen_overlap (Some (1 / 4))) 896 512 512 512 =
     Inr \<lparr>initsuperwidth = 896, initsuperheight = 512, width = 512, height = 512,
          overlap_size_x = 128, overlap_size_y = 128, emb_tiles_x = 2, emb_tiles_y = 1\<rparr>"
    by (simp add: get_make_image_def tile_grid_def alpha_layers_def o emb_tiles_def ceildiv_def)
  have n: "normalize_tiles (Some [1, 2, 3]) = Some [0, 1, 2]"
    by (simp add: normalize_tiles_def)
  have r: "range 2 = [0, 1]" by (simp add: range_def upt_rec)
  have "embiggen (Some (1 / 4)) (Some [1, 2, 3]) 896 512 512 512 7 =
       Inr \<lparr>seeded = True, layers =
          [\<lparr>placed = \<lparr>tile_index = 0, tile_seed = 7, tile_crop = (0, 0, 512, 512)\<rparr>,
            alpha = NoAlpha, at_left = 0, at_top = 0\<rparr>,
           \<lparr>placed = \<lparr>tile_index = 1, tile_seed = 8, tile_crop = (384, 0, 896, 512)\<rparr>,
            alpha = alphaLayerLBC, at_left = 384, at_top = 0\<rparr>]\<rparr>"
    apply (simp only: g n embiggen_def sum.case)
    apply (simp add: make_image_def emb_tile_store_def assemble_def r truthy_def
        is_in_def crop_box_def tile_left_def tile_top_def place_tile_def place_at_def
        select_mask_def rerun_mask_def seed_step_def seedintlimit_def Let_def)
    done
  with g n show ?thesis by blast
qed

text \<open>
  Claim C6, amended: a tile number outside the grid raises no error of its own and is
  never compared with the size of the grid. No tile is made for it: the tiles made are
  exactly the numbers of the selection that lie in the grid, each once and in rising
  order. The run goes on to compositing whenever the count of the tiles made equals the
  size of the grid or the length of the selection, and composites the tiles made.
\<close>

theorem out_of_range_tiles_unchecked:
  assumes "s \<noteq> []"
  shows "map tile_index (emb_tile_store g (Some s) seed) =
           filter (\<lambda>t. t \<in> set s) (range (emb_tiles_x g * emb_tiles_y g))
       \<and> tile_index ` set (emb_tile_store g (Some s) seed) =
           set s \<inter> {0..<emb_tiles_x g * emb_tiles_y g}
       \<and> (int (length (emb_tile_store g (Some s) seed)) = emb_tiles_x g * emb_tiles_y g
            \<or> length (emb_tile_store g (Some s) seed) = length s \<longrightarrow>
          make_image g (Some s) seed =
            Inr \<lparr>seeded = True,
                 layers = map (\<lambda>r. place_tile g (Some s) (tile_index r) r)
                            (emb_tile_store g (Some s) seed)\<rparr>)"
proof -
  have t: "truthy (Some s)" using assms by (simp add: truthy_def)
  have a: "map tile_index (emb_tile_store g (Some s) seed) =
           filter (\<lambda>t. t \<in> set s) (range (emb_tiles_x g * emb_tiles_y g))"
    using t by (simp add: store_tile_indices is_in_def)
  have "set (map tile_index (emb_tile_store g (Some s) seed)) =
           set s \<inter> {0..<emb_tiles_x g * emb_tiles_y g}"
    unfolding a by (auto simp: set_range)
  then have b: "tile_index ` set (emb_tile_store g (Some s) seed) =
           set s \<inter> {0..<emb_tiles_x g * emb_tiles_y g}"
    by simp
  have c: "composite_loop g (Some s) (emb_tile_store g (Some s) seed)
             (range (emb_tiles_x g * emb_tiles_y g)) =
           Inr (map (\<lambda>r. place_tile g (Some s) (tile_index r) r)
                 (emb_tile_store g (Some s) seed))"
    unfolding emb_tile_store_def by (rule composite_loop_rerun [OF t])
  have d: "make_image g (Some s) seed =
            Inr \<lparr>seeded = True,
                 layers = map (\<lambda>r. place_tile g (Some s) (tile_index r) r)
                            (emb_tile_store g (Some s) seed)\<rparr>"
    if "int (length (emb_tile_store g (Some s) seed)) = emb_tiles_x g * emb_tiles_y g
            \<or> length (emb_tile_store g (Some s) seed) = length s"
    using that assms t by (auto simp: make_image_def assemble_def c Let_def)
  show ?thesis using a b d by blast
qed

theorem out_of_range_tiles_unchecked_witness:
  "map tile_index
     (emb_tile_store \<lparr>initsuperwidth = 1024, initsuperheight = 512, width = 512, height = 512,
          overlap_size_x = 128, overlap_size_y = 128, emb_tiles_x = 3, emb_tiles_y = 1\<rparr>
        (Some [- 1, 1, 99]) 7) = [1]"
proof -
  have r: "range 3 = [0, 1, 2]" by (simp add: range_def upt_rec)
  have n: "[- 1, 1, 99] \<noteq> ([] :: int list)" by simp
  show ?thesis
    using out_of_range_tiles_unchecked [OF n, of "\<lparr>initsuperwidth = 1024,
          initsuperheight = 512, width = 512, height = 512,
          overlap_size_x = 128, overlap_size_y = 128, emb_tiles_x = 3, emb_tiles_y = 1\<rparr>" 7]
    by (simp add: r)
qed

text \<open>
  Claim C7, as stated: when the count of rendered tiles differs from the expected count,
  which for a selection is the size of the selection, compositing would fail with an
  error that reports both counts. On the grid of 2 by 1 tiles, the selection 1, 1, 2 has
  three entries and two tiles are rendered; the count equals the size of the grid, the
  check passes and the image is composited.
\<close>

theorem store_count_counterexample:
  "normalize_tiles (Some [1, 1, 2]) = Some [0, 0, 1]
   \<and> length (emb_tile_store \<lparr>initsuperwidth = 896, initsuperheight = 512, width = 512,
        height = 512, overlap_size_x = 128, overlap_size_y = 128, emb_tiles_x = 2,
        emb_tiles_y = 1\<rparr> (Some [0, 0, 1]) 7) = 2
   \<and> length [0, 0, 1 :: int] = 3
   \<and> make_image \<lparr>initsuperwidth = 896, initsuperheight = 512, width = 512,
        height = 512, overlap_size_x = 128, overlap_size_y = 128, emb_tiles_x = 2,
        emb_tiles_y = 1\<rparr> (Some [0, 0, 1]) 7 =
       Inr \<lparr>seeded = True, layers =
          [\<lparr>placed = \<lparr>tile_index = 0, tile_seed = 7, tile_crop = (0, 0, 512, 512)\<rparr>,
            alpha = alphaLayerB, at_left = 0, at_top = 0\<rparr>,
           \<lparr>placed = \<lparr>tile_index = 1, tile_seed = 8, tile_crop = (384, 0, 896, 512)\<rparr>,
            alpha = alphaLayerLBC, at_left = 384, at_top = 0\<rparr>]\<rparr>"
proof -
  have r: "range 2 = [0, 1]" by (simp add: range_def upt_rec)
  have n: "normalize_tiles (Some [1, 1, 2]) = Some [0, 0, 1]"
    by (simp add: normalize_tiles_def)
  show ?thesis
    apply (simp only: n)
    apply (simp add: make_image_def emb_tile_store_def assemble_def r truthy_def
        is_in_def crop_box_def tile_left_def tile_top_def place_tile_def place_at_def
        select_mask_def rerun_mask_def seed_step_def seedintlimit_def Let_def)
    done
qed

text \<open>
  Claim C7, amended: when the count of rendered tiles equals neither the size of the
  grid nor, for a selection that is not the empty list, the length of the selection, no
  image is composited and none is produced. With a selection, a count of the tiles made
  equal to the size of the grid is accepted whatever the length of the selection, and
  the image is composited.
\<close>

theorem incomplete_store_not_composited:
  "(int (length store) \<noteq> emb_tiles_x g * emb_tiles_y g
      \<and> (case sel of None \<Rightarrow> True | Some s \<Rightarrow> s = [] \<or> length store \<noteq> length s)
      \<longrightarrow> (\<exists>e. assemble g sel store = Inl e))
   \<and> (truthy sel
      \<and> int (length (emb_tile_store g sel seed)) = emb_tiles_x g * emb_tiles_y g
      \<longrightarrow> (\<exists>out. make_image g sel seed = Inr out))"
proof (intro conjI impI)
  assume "int (length store) \<noteq> emb_tiles_x g * emb_tiles_y g
      \<and> (case sel of None \<Rightarrow> True | Some s \<Rightarrow> s = [] \<or> length store \<noteq> length s)"
  then show "\<exists>e. assemble g sel store = Inl e"
    by (cases sel) (auto simp: assemble_def Let_def)
next
  assume a: "truthy sel
      \<and> int (length (emb_tile_store g sel seed)) = emb_tiles_x g * emb_tiles_y g"
  then have "composite_loop g sel (emb_tile_store g sel seed)
             (range (emb_tiles_x g * emb_tiles_y g)) =
           Inr (map (\<lambda>r. place_tile g sel (tile_index r) r) (emb_tile_store g sel seed))"
    unfolding emb_tile_store_def by (intro composite_loop_rerun) simp
  with a show "\<exists>out. make_image g sel seed = Inr out"
    by (simp add: make_image_def assemble_def Let_def)
qed

theorem incomplete_store_not_composited_witness:
  "assemble \<lparr>initsuperwidth = 896, initsuperheight = 512, width = 512,
        height = 512, overlap_size_x = 128, overlap_size_y = 128, emb_tiles_x = 2,
        emb_tiles_y = 1\<rparr> (Some [0, 1])
     [\<lparr>tile_index = 0, tile_seed = 7, tile_crop = (0, 0, 512, 512)\<rparr>]
   = Inl UnboundLocalError"
  using incomplete_store_not_composited [of
      "[\<lparr>tile_index = 0, tile_seed = 7, tile_crop = (0, 0, 512, 512)\<rparr>]"
      "\<lparr>initsuperwidth = 896, initsuperheight = 512, width = 512,
        height = 512, overlap_size_x = 128, overlap_size_y = 128, emb_tiles_x = 2,
        emb_tiles_y = 1\<rparr>" "Some [0, 1]" 7]
  by (simp add: assemble_def)

section \<open>Crop boxes\<close>

text \<open>Along one axis: the count \<open>n\<close> of tiles, and the start of tile \<open>c\<close>, which is
  \<open>c\<close> steps of \<open>tile - overlap\<close> from the origin, the last tile excepted, which ends at
  the far edge.\<close>

lemma axis_count:
  fixes s w ov n :: int
  assumes "w \<le> s" and "0 \<le> ov" and "ov < w" and "emb_tiles s w ov = Inr n"
  shows "1 \<le> n" and "s - w \<le> (n - 1) * (w - ov)"
    and "1 < n \<Longrightarrow> (n - 2) * (w - ov) < s - w"
proof -
  let ?q = "- ((- (s - w)) div (w - ov))"
  have d: "0 < w - ov" using assms(3) by simp
  have n: "n = (if w < s then 1 + ?q else 1)"
    using emb_tiles_value [OF assms(3), of s] assms(4) by simp
  show "1 \<le> n"
  proof (cases "w < s")
    case True
    then have "0 < ?q" using d by (intro ceil_pos) simp_all
    then show ?thesis using n True by simp
  next
    case False
    then show ?thesis using n by simp
  qed
  show "s - w \<le> (n - 1) * (w - ov)"
  proof (cases "w < s")
    case True
    then have "n - 1 = ?q" using n by simp
    then show ?thesis using ceil_bounds(1) [OF d, of "s - w"] by simp
  next
    case False
    then show ?thesis using n assms(1) by simp
  qed
  show "(n - 2) * (w - ov) < s - w" if "1 < n"
  proof -
    from that n have t: "w < s" by (auto split: if_splits)
    then have e: "n - 2 = ?q - 1" using n by simp
    have "(?q - 1) * (w - ov) = ?q * (w - ov) - (w - ov)" by (simp add: algebra_simps)
    then show ?thesis
      unfolding e using ceil_bounds(2) [OF d, of "s - w"] by linarith
  qed
qed

lemma axis_inside:
  fixes s w ov n c :: int
  assumes "w \<le> s" and "0 \<le> ov" and "ov < w" and "emb_tiles s w ov = Inr n"
    and "0 \<le> c" and "c < n"
  shows "0 \<le> (if c + 1 = n then s - w else c * (w - ov))"
    and "(if c + 1 = n then s - w else c * (w - ov)) + w \<le> s"
proof -
  have d: "0 \<le> w - ov" using assms(3) by simp
  show "0 \<le> (if c + 1 = n then s - w else c * (w - ov))"
    using assms(1,5) d by simp
  show "(if c + 1 = n then s - w else c * (w - ov)) + w \<le> s"
  proof (cases "c + 1 = n")
    case True
    then show ?thesis by simp
  next
    case False
    then have c: "c \<le> n - 2" and n: "1 < n" using assms(5,6) by simp_all
    have "c * (w - ov) \<le> (n - 2) * (w - ov)" using c d by (rule mult_right_mono)
    also have "\<dots> < s - w" using n by (rule axis_count(3) [OF assms(1-4)])
    finally show ?thesis using False by simp
  qed
qed

lemma axis_cover:
  fixes s w ov n x :: int
  assumes "w \<le> s" and "0 \<le> ov" and "ov < w" and "emb_tiles s w ov = Inr n"
    and "0 \<le> x" and "x < s"
  shows "\<exists>c. 0 \<le> c \<and> c < n
           \<and> (if c + 1 = n then s - w else c * (w - ov)) \<le> x
           \<and> x < (if c + 1 = n then s - w else c * (w - ov)) + w"
proof (cases "s - w \<le> x")
  case True
  have "1 \<le> n" by (rule axis_count(1) [OF assms(1-4)])
  then have "0 \<le> n - 1 \<and> n - 1 < n
           \<and> (if (n - 1) + 1 = n then s - w else (n - 1) * (w - ov)) \<le> x
           \<and> x < (if (n - 1) + 1 = n then s - w else (n - 1) * (w - ov)) + w"
    using True assms(6) by simp
  then show ?thesis by blast
next
  case False
  let ?d = "w - ov" and ?c = "x div (w - ov)"
  have d: "0 < ?d" using assms(3) by simp
  have e: "?c * ?d + x mod ?d = x" by (rule div_mult_mod_eq)
  have m: "0 \<le> x mod ?d" "x mod ?d < ?d" using d by simp_all
  have lo: "?c * ?d \<le> x" using e m(1) by linarith
  have hi: "x < ?c * ?d + ?d" using e m(2) by linarith
  have c0: "0 \<le> ?c" using assms(5) d by (simp add: pos_imp_zdiv_nonneg_iff)
  have "?c * ?d < (n - 1) * ?d"
    using lo False axis_count(2) [OF assms(1-4)] by linarith
  then have c1: "?c < n - 1" using d by (simp add: mult_less_cancel_right)
  have "0 \<le> ?c \<and> ?c < n
           \<and> (if ?c + 1 = n then s - w else ?c * ?d) \<le> x
           \<and> x < (if ?c + 1 = n then s - w else ?c * ?d) + w"
    using c0 c1 lo hi assms(2) by simp
  then show ?thesis by blast
qed

text \<open>Rows and columns of the tiles of a grid.\<close>

lemma tile_row_column:
  fixes tile tx ty :: int
  assumes "0 \<le> tile" and "tile < tx * ty" and "1 \<le> tx"
  shows "0 \<le> tile mod tx" and "tile mod tx < tx" and "0 \<le> tile div tx" and "tile div tx < ty"
proof -
  have p: "0 < tx" using assms(3) by simp
  show "0 \<le> tile mod tx" "tile mod tx < tx" using p by simp_all
  show "0 \<le> tile div tx" using assms(1) p by (simp add: pos_imp_zdiv_nonneg_iff)
  have "tile div tx * tx \<le> tile"
    using p by (metis div_mult_mod_eq le_add_same_cancel1 pos_mod_sign)
  then have "tile div tx * tx < ty * tx" using assms(2) by (simp add: mult.commute)
  then show "tile div tx < ty" using p by (simp add: mult_less_cancel_right)
qed

lemma tile_of_row_column:
  fixes r c tx ty :: int
  assumes "0 \<le> c" and "c < tx" and "0 \<le> r" and "r < ty"
  shows "0 \<le> r * tx + c" and "r * tx + c < tx * ty"
    and "(r * tx + c) div tx = r" and "(r * tx + c) mod tx = c"
proof -
  show "0 \<le> r * tx + c" using assms by simp
  have "r + 1 \<le> ty" using assms(4) by simp
  then have "(r + 1) * tx \<le> ty * tx" using assms(1,2) by (intro mult_right_mono) simp_all
  then show "r * tx + c < tx * ty" using assms(2) by (simp add: algebra_simps)
  show "(r * tx + c) div tx = r" using assms(1,2) by (simp add: div_pos_pos_trivial)
  show "(r * tx + c) mod tx = c" using assms(1,2) by (simp add: mod_pos_pos_trivial)
qed

lemma crop_box_inside:
  assumes "width g \<le> initsuperwidth g" and "height g \<le> initsuperheight g"
    and "0 \<le> overlap_size_x g" and "overlap_size_x g < width g"
    and "0 \<le> overlap_size_y g" and "overlap_size_y g < height g"
    and "emb_tiles (initsuperwidth g) (width g) (overlap_size_x g) = Inr (emb_tiles_x g)"
    and "emb_tiles (initsuperheight g) (height g) (overlap_size_y g) = Inr (emb_tiles_y g)"
    and "0 \<le> tile" and "tile < emb_tiles_x g * emb_tiles_y g"
  shows "box_points (crop_box g tile) \<subseteq> {0..<initsuperwidth g} \<times> {0..<initsuperheight g}"
proof -
  have tx: "1 \<le> emb_tiles_x g" by (rule axis_count(1) [OF assms(1,3,4,7)])
  note rc = tile_row_column [OF assms(9,10) tx]
  note x = axis_inside [OF assms(1,3,4,7) rc(1,2)]
  note y = axis_inside [OF assms(2,5,6,8) rc(3,4)]
  show ?thesis
    using x y by (auto simp: box_points_def crop_box_def tile_left_def tile_top_def Let_def)
qed

lemma crop_box_covers:
  assumes "width g \<le> initsuperwidth g" and "height g \<le> initsuperheight g"
    and "0 \<le> overlap_size_x g" and "overlap_size_x g < width g"
    and "0 \<le> overlap_size_y g" and "overlap_size_y g < height g"
    and "emb_tiles (initsuperwidth g) (width g) (overlap_size_x g) = Inr (emb_tiles_x g)"
    and "emb_tiles (initsuperheight g) (height g) (overlap_size_y g) = Inr (emb_tiles_y g)"
    and "0 \<le> x" and "x < initsuperwidth g" and "0 \<le> y" and "y < initsuperheight g"
  shows "\<exists>tile. 0 \<le> tile \<and> tile < emb_tiles_x g * emb_tiles_y g
           \<and> (x, y) \<in> box_points (crop_box g tile)"
proof -
  obtain c where c: "0 \<le> c" "c < emb_tiles_x g"
      "tile_left g c \<le> x" "x < tile_left g c + width g"
    using axis_cover [OF assms(1,3,4,7,9,10)] unfolding tile_left_def by blast
  obtain r where r: "0 \<le> r" "r < emb_tiles_y g"
      "tile_top g r \<le> y" "y < tile_top g r + height g"
    using axis_cover [OF assms(2,5,6,8,11,12)] unfolding tile_top_def by blast
  note t = tile_of_row_column [OF c(1,2) r(1,2)]
  have "(x, y) \<in> box_points (crop_box g (r * emb_tiles_x g + c))"
    unfolding crop_box_def Let_def t(3) t(4)
    using c(3,4) r(3,4) by (simp add: box_points_def)
  with t(1,2) show ?thesis by blast
qed

text \<open>The boxes of the store of a whole grid, for any variables of the closure whose
  tile counts are the ones computed from its sizes and overlaps.\<close>

lemma store_boxes_cover:
  assumes "\<not> truthy sel"
    and "width g \<le> initsuperwidth g" and "height g \<le> initsuperheight g"
    and "0 \<le> overlap_size_x g" and "overlap_size_x g < width g"
    and "0 \<le> overlap_size_y g" and "overlap_size_y g < height g"
    and "emb_tiles (initsuperwidth g) (width g) (overlap_size_x g) = Inr (emb_tiles_x g)"
    and "emb_tiles (initsuperheight g) (height g) (overlap_size_y g) = Inr (emb_tiles_y g)"
  shows "(\<Union>r \<in> set (emb_tile_store g sel seed). box_points (tile_crop r))
           = {0..<initsuperwidth g} \<times> {0..<initsuperheight g}
       \<and> map tile_index (emb_tile_store g sel seed) = range (emb_tiles_x g * emb_tiles_y g)
       \<and> (\<forall>r \<in> set (emb_tile_store g sel seed).
            (case tile_crop r of (lt, tp, rt, bt) \<Rightarrow>
               rt - lt = width g \<and> bt - tp = height g
               \<and> (tile_index r mod emb_tiles_x g + 1 = emb_tiles_x g
                    \<longrightarrow> rt = initsuperwidth g)
               \<and> (tile_index r div emb_tiles_x g + 1 = emb_tiles_y g
                    \<longrightarrow> bt = initsuperheight g)))"
proof -
  let ?n = "emb_tiles_x g * emb_tiles_y g"
  note h = assms(2-9)
  have st: "emb_tile_store g sel seed =
     map (\<lambda>t. \<lparr>tile_index = t, tile_seed = (seed_step ^^ nat t) seed, tile_crop = crop_box g t\<rparr>)
       (range ?n)"
    by (rule store_full_grid [OF assms(1)])
  have u: "(\<Union>r \<in> set (emb_tile_store g sel seed). box_points (tile_crop r))
      = (\<Union>t \<in> {0..<?n}. box_points (crop_box g t))"
    unfolding st by (simp add: set_range)
  have sub: "(\<Union>t \<in> {0..<?n}. box_points (crop_box g t))
      \<subseteq> {0..<initsuperwidth g} \<times> {0..<initsuperheight g}"
  proof (rule UN_least)
    fix t assume "t \<in> {0..<?n}"
    then have "0 \<le> t" "t < ?n" by simp_all
    then show "box_points (crop_box g t) \<subseteq> {0..<initsuperwidth g} \<times> {0..<initsuperheight g}"
      by (rule crop_box_inside [OF h])
  qed
  have sup: "{0..<initsuperwidth g} \<times> {0..<initsuperheight g}
      \<subseteq> (\<Union>t \<in> {0..<?n}. box_points (crop_box g t))"
  proof
    fix p assume p: "p \<in> {0..<initsuperwidth g} \<times> {0..<initsuperheight g}"
    obtain x y where xy: "p = (x, y)" by (cases p)
    with p have b: "0 \<le> x" "x < initsuperwidth g" "0 \<le> y" "y < initsuperheight g"
      by simp_all
    from crop_box_covers [OF h b]
    obtain t where "0 \<le> t" "t < ?n" "(x, y) \<in> box_points (crop_box g t)" by blast
    then show "p \<in> (\<Union>t \<in> {0..<?n}. box_points (crop_box g t))"
      unfolding xy by auto
  qed
  have a: "(\<Union>r \<in> set (emb_tile_store g sel seed). box_points (tile_crop r))
           = {0..<initsuperwidth g} \<times> {0..<initsuperheight g}"
    unfolding u using sub sup by (rule subset_antisym)
  have b: "map tile_index (emb_tile_store g sel seed) = range ?n"
    unfolding st by (simp add: comp_def)
  have c: "\<forall>r \<in> set (emb_tile_store g sel seed).
            (case tile_crop r of (lt, tp, rt, bt) \<Rightarrow>
               rt - lt = width g \<and> bt - tp = height g
               \<and> (tile_index r mod emb_tiles_x g + 1 = emb_tiles_x g
                    \<longrightarrow> rt = initsuperwidth g)
               \<and> (tile_index r div emb_tiles_x g + 1 = emb_tiles_y g
                    \<longrightarrow> bt = initsuperheight g))"
    unfolding st by (simp add: crop_box_def tile_left_def tile_top_def Let_def)
  show ?thesis using a b c by blast
qed

lemma emb_tiles_more_than_one:
  assumes "w < s" and "0 \<le> ov" and "ov < w" and "emb_tiles s w ov = Inr n"
  shows "1 < n"
proof -
  have "0 < - ((- (s - w)) div (w - ov))"
    using assms(1,3) by (intro ceil_pos) simp_all
  then show ?thesis
    using emb_tiles_value [OF assms(3), of s] assms(1,4) by simp
qed

text \<open>
  Claim C3, as stated: for every init image at least as large as a tile and every overlap
  from 0 up to, but not including, the tile size, the boxes cut out for the tiles cover
  the init image. No box is cut out at an overlap of 0, for which the first gradient
  cannot be resized, nor for an init image of the size of one tile, which the sanity
  assertion refuses: \<^verbatim>\<open>get_make_image\<close> raises in both cases.
\<close>

theorem crop_boxes_counterexample:
  "overlap_sizes (embiggen_overlap (Some 0)) 512 512 = (0, 0)
   \<and> get_make_image (embiggen_overlap (Some 0)) 1024 512 512 512 = Inl ValueError
   \<and> get_make_image (embiggen_overlap (Some (1 / 4))) 512 512 512 512 = Inl AssertionError"
  by (simp add: get_make_image_def tile_grid_def alpha_layers_def overlap_sizes_def
      embiggen_overlap_def py_round_def emb_tiles_def ceildiv_def)

text \<open>
  Claim C3, amended: for an init image at least as large as a tile in both dimensions and
  larger in at least one, and overlaps from 1 pixel up to, but not including, the tile
  size, the sizing succeeds, and the boxes cut out for the tiles of the whole grid, one
  for every tile, together are exactly the init image; every box has the width and
  height of a tile, and the boxes of the last column and of the last row end at the right
  and the bottom edge.
\<close>

theorem crop_boxes_cover:
  assumes "\<not> truthy sel"
    and "w \<le> isw" and "h \<le> ish" and "w < isw \<or> h < ish"
    and "0 < ox" and "ox < w" and "0 < oy" and "oy < h"
  shows "\<exists>g. tile_grid isw ish w h ox oy = Inr g
       \<and> (\<Union>r \<in> set (emb_tile_store g sel seed). box_points (tile_crop r))
           = {0..<isw} \<times> {0..<ish}
       \<and> map tile_index (emb_tile_store g sel seed) = range (emb_tiles_x g * emb_tiles_y g)
       \<and> (\<forall>r \<in> set (emb_tile_store g sel seed).
            (case tile_crop r of (lt, tp, rt, bt) \<Rightarrow>
               rt - lt = w \<and> bt - tp = h
               \<and> (tile_index r mod emb_tiles_x g + 1 = emb_tiles_x g \<longrightarrow> rt = isw)
               \<and> (tile_index r div emb_tiles_x g + 1 = emb_tiles_y g \<longrightarrow> bt = ish)))"
proof -
  obtain tx where tx: "emb_tiles isw w ox = Inr tx"
    using emb_tiles_value [OF assms(6)] by blast
  obtain ty where ty: "emb_tiles ish h oy = Inr ty"
    using emb_tiles_value [OF assms(8)] by blast
  let ?g = "\<lparr>initsuperwidth = isw, initsuperheight = ish, width = w, height = h,
             overlap_size_x = ox, overlap_size_y = oy, emb_tiles_x = tx, emb_tiles_y = ty\<rparr>"
  have ox0: "0 \<le> ox" and oy0: "0 \<le> oy" using assms(5,7) by simp_all
  have many: "1 < tx \<or> 1 < ty"
    using assms(4) emb_tiles_more_than_one [OF _ ox0 assms(6) tx]
      emb_tiles_more_than_one [OF _ oy0 assms(8) ty] by blast
  have layers: "alpha_layers ?g = Inr ?g"
    using assms(5-8) by (simp add: alpha_layers_def)
  have grid: "tile_grid isw ish w h ox oy = Inr ?g"
    using many by (simp add: tile_grid_def tx ty layers)
  have cover: "(\<Union>r \<in> set (emb_tile_store ?g sel seed). box_points (tile_crop r))
           = {0..<initsuperwidth ?g} \<times> {0..<initsuperheight ?g}
       \<and> map tile_index (emb_tile_store ?g sel seed) = range (emb_tiles_x ?g * emb_tiles_y ?g)
       \<and> (\<forall>r \<in> set (emb_tile_store ?g sel seed).
            (case tile_crop r of (lt, tp, rt, bt) \<Rightarrow>
               rt - lt = width ?g \<and> bt - tp = height ?g
               \<and> (tile_index r mod emb_tiles_x ?g + 1 = emb_tiles_x ?g
                    \<longrightarrow> rt = initsuperwidth ?g)
               \<and> (tile_index r div emb_tiles_x ?g + 1 = emb_tiles_y ?g
                    \<longrightarrow> bt = initsuperheight ?g)))"
    by (rule store_boxes_cover [OF assms(1)])
       (simp_all add: assms(2,3,6,8) ox0 oy0 tx ty)
  show ?thesis
    by (rule exI [of _ ?g]) (use grid cover in simp)
qed

theorem crop_boxes_cover_witness:
  "tile_grid 1024 512 512 512 128 128 =
     Inr \<lparr>initsuperwidth = 1024, initsuperheight = 512, width = 512, height = 512,
          overlap_size_x = 128, overlap_size_y = 128, emb_tiles_x = 3, emb_tiles_y = 1\<rparr>
   \<and> (\<Union>r \<in> set (emb_tile_store \<lparr>initsuperwidth = 1024, initsuperheight = 512,
        width = 512, height = 512, overlap_size_x = 128, overlap_size_y = 128,
        emb_tiles_x = 3, emb_tiles_y = 1\<rparr> None 7). box_points (tile_crop r))
       = {0..<1024} \<times> {0..<512}"
proof -
  have g: "tile_grid 1024 512 512 512 128 128 =
     Inr \<lparr>initsuperwidth = 1024, initsuperheight = 512, width = 512, height = 512,
          overlap_size_x = 128, overlap_size_y = 128, emb_tiles_x = 3, emb_tiles_y = 1\<rparr>"
    by (simp add: tile_grid_def alpha_layers_def emb_tiles_def ceildiv_def)
  have t: "\<not> truthy None" by (simp add: truthy_def)
  show ?thesis
    using crop_boxes_cover [OF t, of 512 1024 512 512 128 128 7] g by auto
qed

end
